theory Spec2Isabelle
  imports Main "HOL-Library.Multiset"
begin

section \<open>The catalog store of utils/db.py\<close>

text \<open>
  The module keeps three relations in an SQLite file and talks to them through
  \<open>executeQuery\<close>. Each SQL statement the module issues is embedded as a HOL function on
  an explicit catalog state; each Python function of the module is embedded under its own
  name on top of those. The limit of the engine on the bound parameters of one statement
  is part of the model, since the module builds \<open>IN\<close> lists of any length; the other
  limits of the engine (the length of a text value, the range of 64-bit identities) are
  outside it.
\<close>

datatype error = IntegrityError | IndexError | OperationalError

text \<open>
  Modelled from the spec: the table declarations. The calls of \<open>createTable\<close> that fix the
  columns are not part of utils/db.py, so the shape of the relations is taken from the
  description of the persisted state:
  \<open>MEDIA(imageID PK, hash UNIQUE, path, hidden)\<close>,
  \<open>CLASS(classID PK, class UNIQUE)\<close>,
  \<open>JUNCTION(imageID, classID)\<close> with the pair as composite key.
  Deleting a MEDIA row leaves CLASS and JUNCTION alone (the module issues no statement on
  them and the description declares no cascade).

  Rows are kept in storage order. Columns hold non-NULL values of the Python types the
  module passes in (\<open>str\<close> for hash, path and class, \<open>int\<close> for hidden and the identities).
\<close>

record media_row =
  imageID :: int
  hash :: string
  path :: string
  hidden :: int

record class_row =
  classID :: int
  className :: string

text \<open>A JUNCTION row is the pair (imageID, classID).\<close>

type_synonym junction_row = "int \<times> int"

text \<open>
  Besides the relations, the state records the calls of the external collaborator
  \<open>deleteFile\<close> (utils/fs.py), one entry per call, holding the tuple of paths passed.
\<close>

record catalog =
  MEDIA :: "media_row list"
  CLASS :: "class_row list"
  JUNCTION :: "junction_row list"
  deleteFile_calls :: "string list list"

definition empty_catalog :: catalog where
  "empty_catalog = \<lparr>MEDIA = [], CLASS = [], JUNCTION = [], deleteFile_calls = []\<rparr>"

subsection \<open>Text functions: \<open>str.split\<close> and \<open>GROUP_CONCAT\<close>\<close>

text \<open>Python's \<open>s.split(sep)\<close> for a one-character separator.\<close>

fun split_str :: "char \<Rightarrow> string \<Rightarrow> string list" where
  "split_str sep [] = [[]]"
| "split_str sep (x # xs) =
     (if x = sep then [] # split_str sep xs
      else (case split_str sep xs of
              [] \<Rightarrow> [[x]]
            | w # ws \<Rightarrow> (x # w) # ws))"

text \<open>
  SQLite's \<open>GROUP_CONCAT(X)\<close> with the default separator: the values of the group joined
  by a comma. A group of the query holds at least one row, so the empty case never
  reaches \<open>split\<close>.
\<close>

fun GROUP_CONCAT :: "string list \<Rightarrow> string" where
  "GROUP_CONCAT [] = []"
| "GROUP_CONCAT [v] = v"
| "GROUP_CONCAT (v # w # vs) = v @ CHR '','' # GROUP_CONCAT (w # vs)"

text \<open>Integer columns are rendered in decimal when they are concatenated as text.\<close>

fun dec_nat :: "nat \<Rightarrow> string" where
  "dec_nat n =
     (if n < 10 then [''0123456789'' ! n]
      else dec_nat (n div 10) @ [''0123456789'' ! (n mod 10)])"

declare dec_nat.simps [simp del]

definition dec_int :: "int \<Rightarrow> string" where
  "dec_int i = (if i < 0 then CHR ''-'' # dec_nat (nat (- i)) else dec_nat (nat i))"

text \<open>The \<open>groupOf\<close> argument names a column of MEDIA.\<close>

datatype column = ColImageID | ColHash | ColPath | ColHidden

fun col_text :: "column \<Rightarrow> media_row \<Rightarrow> string" where
  "col_text ColImageID r = dec_int (imageID r)"
| "col_text ColHash r = hash r"
| "col_text ColPath r = path r"
| "col_text ColHidden r = dec_int (hidden r)"

subsection \<open>Read tier\<close>

definition hashExist :: "catalog \<Rightarrow> string \<Rightarrow> bool" where
  "hashExist db hashValue = (\<exists>r \<in> set (MEDIA db). hash r = hashValue)"

text \<open>
  The rows of \<open>CLASS c JOIN JUNCTION j ON c.classID = j.classID JOIN MEDIA i ON
  j.imageID = i.imageID WHERE i.hidden = ?\<close>. SQL leaves the order of the joined rows
  and of the groups open; the nested-loop order of the \<open>FROM\<close> clause is used here.
\<close>

definition joined :: "catalog \<Rightarrow> int \<Rightarrow> (class_row \<times> junction_row \<times> media_row) list" where
  "joined db h =
     [(c, j, i). c \<leftarrow> CLASS db, j \<leftarrow> JUNCTION db, classID c = snd j,
                 i \<leftarrow> MEDIA db, fst j = imageID i, hidden i = h]"

text \<open>The values that \<open>GROUP BY c.class\<close> collects for one class label.\<close>

definition group_values :: "catalog \<Rightarrow> int \<Rightarrow> column \<Rightarrow> string \<Rightarrow> string list" where
  "group_values db h groupOf k =
     map (\<lambda>(c, j, i). col_text groupOf i)
       (filter (\<lambda>(c, j, i). className c = k) (joined db h))"

text \<open>
  \<open>groupByClass\<close>: one result row per class label that has a joined row; the dictionary is
  an association list with one entry per label, the value being
  \<open>tuple(row[1].split(','))\<close>.
\<close>

definition groupByClass :: "catalog \<Rightarrow> int \<Rightarrow> column \<Rightarrow> (string \<times> string list) list" where
  "groupByClass db h groupOf =
     map (\<lambda>k. (k, split_str CHR '','' (GROUP_CONCAT (group_values db h groupOf k))))
       (remdups (map (\<lambda>(c, j, i). className c) (joined db h)))"

text \<open>The loop of \<open>tupleByClass\<close> over the groups, extending \<open>res\<close>.\<close>

fun extend_groups :: "string list \<Rightarrow> (string \<times> string list) list \<Rightarrow> string list \<Rightarrow> string list" where
  "extend_groups classes [] res = res"
| "extend_groups classes ((class_k, vals) # groups) res =
     extend_groups classes groups (if class_k \<in> set classes then res @ vals else res)"

definition tupleByClass :: "catalog \<Rightarrow> string list \<Rightarrow> int \<Rightarrow> column \<Rightarrow> string list" where
  "tupleByClass db classes h groupOf = extend_groups classes (groupByClass db h groupOf) []"

subsection \<open>Mutation tier\<close>

text \<open>
  SQLite refuses a statement that binds more parameters than its limit
  \<open>SQLITE_MAX_VARIABLE_NUMBER\<close>: the statement is not run and Python raises
  OperationalError ("too many SQL variables"). The limit is fixed when the library is
  built; the value taken here is the default since version 3.32.0, 32766.
\<close>

definition SQLITE_MAX_VARIABLE_NUMBER :: nat where
  "SQLITE_MAX_VARIABLE_NUMBER = 32766"

text \<open>
  \<open>UPDATE MEDIA SET hidden=? WHERE path IN (...)\<close>, with one parameter for \<open>hidden\<close> and
  one per path. A call that raises leaves the catalog as it was; the error carries it.
\<close>

definition toggleVisibility :: "catalog \<Rightarrow> string list \<Rightarrow> int \<Rightarrow> (error \<times> catalog) + catalog" where
  "toggleVisibility db paths h =
     (if SQLITE_MAX_VARIABLE_NUMBER < length paths + 1 then Inl (OperationalError, db)
      else Inr (db\<lparr>MEDIA :=
             map (\<lambda>r. if path r \<in> set paths then r\<lparr>hidden := h\<rparr> else r) (MEDIA db)\<rparr>))"

definition hideByClass :: "catalog \<Rightarrow> string list \<Rightarrow> (error \<times> catalog) + catalog" where
  "hideByClass db classes = toggleVisibility db (tupleByClass db classes 0 ColPath) 1"

definition unhideByClass :: "catalog \<Rightarrow> string list \<Rightarrow> (error \<times> catalog) + catalog" where
  "unhideByClass db classes = toggleVisibility db (tupleByClass db classes 1 ColPath) 0"

text \<open>
  \<open>DELETE FROM MEDIA WHERE path IN (...)\<close> with one parameter per path, then
  \<open>deleteFile(paths)\<close>. When the statement raises, \<open>deleteFile\<close> is not reached.
\<close>

definition deleteFromDB :: "catalog \<Rightarrow> string list \<Rightarrow> (error \<times> catalog) + catalog" where
  "deleteFromDB db paths =
     (if SQLITE_MAX_VARIABLE_NUMBER < length paths then Inl (OperationalError, db)
      else Inr (db\<lparr>MEDIA := filter (\<lambda>r. path r \<notin> set paths) (MEDIA db),
                  deleteFile_calls := deleteFile_calls db @ [paths]\<rparr>))"



subsection \<open>Insert or update\<close>

text \<open>
  Modelled from the spec: the identity columns are declared outside utils/db.py. They are
  "assigned by the store"; for an integer primary key SQLite assigns one more than the
  largest identity in the table, 1 for an empty table.
\<close>

definition next_rowid :: "int list \<Rightarrow> int" where
  "next_rowid ids = (case ids of [] \<Rightarrow> 1 | x # xs \<Rightarrow> fold max xs x + 1)"

text \<open>
  \<open>INSERT INTO MEDIA(hash, path, hidden) VALUES(?, ?, 0)\<close>: raises IntegrityError when
  the hash is taken (hash is UNIQUE), else appends the row and returns its identity
  (\<open>lastrowid\<close>). A statement that raises changes nothing.
\<close>

definition insert_media :: "catalog \<Rightarrow> string \<Rightarrow> string \<Rightarrow> error + (catalog \<times> int)" where
  "insert_media db imgHash file =
     (if \<exists>r \<in> set (MEDIA db). hash r = imgHash then Inl IntegrityError
      else (let new = next_rowid (map imageID (MEDIA db))
            in Inr (db\<lparr>MEDIA := MEDIA db @
                      [\<lparr>imageID = new, hash = imgHash, path = file, hidden = 0\<rparr>]\<rparr>, new)))"

text \<open>\<open>INSERT INTO CLASS(class) VALUES(?)\<close>; class is UNIQUE.\<close>

definition insert_class :: "catalog \<Rightarrow> string \<Rightarrow> error + (catalog \<times> int)" where
  "insert_class db name =
     (if \<exists>c \<in> set (CLASS db). className c = name then Inl IntegrityError
      else (let new = next_rowid (map classID (CLASS db))
            in Inr (db\<lparr>CLASS := CLASS db @ [\<lparr>classID = new, className = name\<rparr>]\<rparr>, new)))"

text \<open>\<open>SELECT classID FROM CLASS WHERE class = ?\<close>.\<close>

definition select_classID :: "catalog \<Rightarrow> string \<Rightarrow> int list" where
  "select_classID db name = map classID (filter (\<lambda>c. className c = name) (CLASS db))"

text \<open>
  \<open>INSERT OR IGNORE INTO JUNCTION(imageID, classID) VALUES(?, ?)\<close>; the pair is the key
  of JUNCTION, so a pair that is present is skipped.
\<close>

definition insert_or_ignore_junction :: "catalog \<Rightarrow> int \<Rightarrow> int \<Rightarrow> catalog" where
  "insert_or_ignore_junction db iid cid =
     (if (iid, cid) \<in> set (JUNCTION db) then db
      else db\<lparr>JUNCTION := JUNCTION db @ [(iid, cid)]\<rparr>)"

text \<open>\<open>UPDATE MEDIA SET path = ? WHERE hash = ?\<close>.\<close>

definition update_path :: "catalog \<Rightarrow> string \<Rightarrow> string \<Rightarrow> catalog" where
  "update_path db file imgHash =
     db\<lparr>MEDIA := map (\<lambda>r. if hash r = imgHash then r\<lparr>path := file\<rparr> else r) (MEDIA db)\<rparr>"

text \<open>
  The inner find-or-create of one class label: the insert, and on IntegrityError the
  select whose \<open>[0][0]\<close> raises IndexError on an empty result.
\<close>

definition find_or_create_class :: "catalog \<Rightarrow> string \<Rightarrow> (error \<times> catalog) + (catalog \<times> int)" where
  "find_or_create_class db name =
     (case insert_class db name of
        Inr (db1, cid) \<Rightarrow> Inr (db1, cid)
      | Inl IntegrityError \<Rightarrow>
          (case select_classID db name of
             [] \<Rightarrow> Inl (IndexError, db)
           | cid # _ \<Rightarrow> Inr (db, cid))
      | Inl IndexError \<Rightarrow> Inl (IndexError, db)
      | Inl OperationalError \<Rightarrow> Inl (OperationalError, db))"

text \<open>The loop over \<open>imgClass\<close>; an exception leaves with the state reached so far.\<close>

fun class_loop :: "catalog \<Rightarrow> int \<Rightarrow> string list \<Rightarrow> (error \<times> catalog) + catalog" where
  "class_loop db iid [] = Inr db"
| "class_loop db iid (name # rest) =
     (case find_or_create_class db name of
        Inl err \<Rightarrow> Inl err
      | Inr (db1, cid) \<Rightarrow> class_loop (insert_or_ignore_junction db1 iid cid) iid rest)"

text \<open>
  \<open>insertIntoDB\<close>: the outer handler catches IntegrityError only, from the insert into
  MEDIA or from the loop; any other exception propagates.
\<close>

definition insertIntoDB :: "catalog \<Rightarrow> string \<Rightarrow> string list \<Rightarrow> string \<Rightarrow> (error \<times> catalog) + catalog" where
  "insertIntoDB db file imgClass imgHash =
     (case insert_media db imgHash file of
        Inl IntegrityError \<Rightarrow> Inr (update_path db file imgHash)
      | Inl IndexError \<Rightarrow> Inl (IndexError, db)
      | Inl OperationalError \<Rightarrow> Inl (OperationalError, db)
      | Inr (db1, iid) \<Rightarrow>
          (case class_loop db1 iid imgClass of
             Inl (IntegrityError, db2) \<Rightarrow> Inr (update_path db2 file imgHash)
           | Inl (IndexError, db2) \<Rightarrow> Inl (IndexError, db2)
           | Inl (OperationalError, db2) \<Rightarrow> Inl (OperationalError, db2)
           | Inr db2 \<Rightarrow> Inr db2))"

subsection \<open>Vocabulary of the properties\<close>

text \<open>
  A MediaItem belongs to one of the given classes when some JUNCTION row links its
  imageID to a CLASS row carrying one of the labels. This is the membership the join of
  \<open>groupByClass\<close> computes, without the filter on \<open>hidden\<close>.
\<close>

definition in_classes :: "catalog \<Rightarrow> string list \<Rightarrow> media_row \<Rightarrow> bool" where
  "in_classes db classes r =
     (\<exists>c \<in> set (CLASS db). \<exists>j \<in> set (JUNCTION db).
        className c \<in> set classes \<and> classID c = snd j \<and> fst j = imageID r)"

text \<open>
  The catalog a call leaves behind, whether it returned or raised.
\<close>

definition state_after :: "(error \<times> catalog) + catalog \<Rightarrow> catalog" where
  "state_after res = (case res of Inl (e, db) \<Rightarrow> db | Inr db \<Rightarrow> db)"




section \<open>Auxiliary facts\<close>

subsection \<open>Splitting and joining text\<close>

lemma split_str_not_Nil [simp]: "split_str s a \<noteq> []"
  by (induction a) (auto split: list.splits)

lemma split_str_append: "split_str s (a @ s # b) = split_str s a @ split_str s b"
  by (induction a) (auto split: list.splits)

lemma split_GROUP_CONCAT:
  "vs \<noteq> [] \<Longrightarrow> split_str CHR '','' (GROUP_CONCAT vs) = concat (map (split_str CHR '','') vs)"
  by (induction vs rule: GROUP_CONCAT.induct) (auto simp: split_str_append)

lemma split_str_free: "s \<notin> set a \<Longrightarrow> split_str s a = [a]"
  by (induction a) (auto split: list.splits)


lemma concat_split_free:
  "\<forall>v \<in> set vs. s \<notin> set v \<Longrightarrow> concat (map (split_str s) vs) = vs"
  by (induction vs) (auto simp: split_str_free)



lemma joined_iff:
  "(c, j, i) \<in> set (joined db h) \<longleftrightarrow>
     c \<in> set (CLASS db) \<and> j \<in> set (JUNCTION db) \<and> classID c = snd j \<and>
     i \<in> set (MEDIA db) \<and> fst j = imageID i \<and> hidden i = h"
  by (auto simp: joined_def)

lemma extend_groups_eq:
  "extend_groups cs gs res = res @ concat (map snd (filter (\<lambda>g. fst g \<in> set cs) gs))"
  by (induction cs gs res rule: extend_groups.induct) auto

lemma group_values_not_Nil:
  "k \<in> set (map (\<lambda>(c, j, i). className c) (joined db h)) \<Longrightarrow> group_values db h g k \<noteq> []"
  by (auto simp: group_values_def filter_empty_conv)

lemma groupByClass_eq:
  "groupByClass db h g =
     map (\<lambda>k. (k, concat (map (split_str CHR '','') (group_values db h g k))))
       (remdups (map (\<lambda>(c, j, i). className c) (joined db h)))"
  unfolding groupByClass_def
  by (rule map_cong[OF refl]) (simp add: split_GROUP_CONCAT group_values_not_Nil del: set_map)

lemma tupleByClass_eq:
  "tupleByClass db cs h g =
     concat (map (\<lambda>k. concat (map (split_str CHR '','') (group_values db h g k)))
       (filter (\<lambda>k. k \<in> set cs) (remdups (map (\<lambda>(c, j, i). className c) (joined db h)))))"
  by (simp add: tupleByClass_def extend_groups_eq groupByClass_eq filter_map comp_def)

subsection \<open>Grouping and resolution by class\<close>

lemma set_tupleByClass:
  "set (tupleByClass db cs h g) =
     (\<Union>x \<in> {x \<in> set (joined db h). className (fst x) \<in> set cs}.
        set (split_str CHR '','' (col_text g (snd (snd x)))))"
  by (auto simp: tupleByClass_eq group_values_def) force+

lemma set_tupleByClass_path:
  "set (tupleByClass db cs h ColPath) =
     (\<Union>m \<in> {m \<in> set (MEDIA db). hidden m = h \<and> in_classes db cs m}.
        set (split_str CHR '','' (path m)))"
proof (intro set_eqI iffI)
  fix p
  assume "p \<in> set (tupleByClass db cs h ColPath)"
  then obtain c j i where row: "(c, j, i) \<in> set (joined db h)" "className c \<in> set cs"
    and p: "p \<in> set (split_str CHR '','' (path i))"
    by (auto simp: set_tupleByClass)
  from row have "i \<in> set (MEDIA db)" "hidden i = h" "in_classes db cs i"
    unfolding joined_iff in_classes_def by blast+
  with p show "p \<in> (\<Union>m \<in> {m \<in> set (MEDIA db). hidden m = h \<and> in_classes db cs m}.
        set (split_str CHR '','' (path m)))"
    by blast
next
  fix p
  assume "p \<in> (\<Union>m \<in> {m \<in> set (MEDIA db). hidden m = h \<and> in_classes db cs m}.
        set (split_str CHR '','' (path m)))"
  then obtain m where m: "m \<in> set (MEDIA db)" "hidden m = h" "in_classes db cs m"
    and p: "p \<in> set (split_str CHR '','' (path m))"
    by blast
  from m(3) obtain c j where "c \<in> set (CLASS db)" "j \<in> set (JUNCTION db)"
    "className c \<in> set cs" "classID c = snd j" "fst j = imageID m"
    unfolding in_classes_def by blast
  with m have "(c, j, m) \<in> set (joined db h)" "className c \<in> set cs"
    by (simp_all add: joined_iff)
  with p show "p \<in> set (tupleByClass db cs h ColPath)"
    unfolding set_tupleByClass by (intro UN_I[of "(c, j, m)"]) simp_all
qed

lemma set_tupleByClass_path_free:
  assumes "\<forall>r \<in> set (MEDIA db). hidden r = h \<and> in_classes db cs r \<longrightarrow> CHR '','' \<notin> set (path r)"
  shows "set (tupleByClass db cs h ColPath) =
     path ` {m \<in> set (MEDIA db). hidden m = h \<and> in_classes db cs m}"
  unfolding set_tupleByClass_path using assms
  by (auto simp: split_str_free)

lemma in_classes_hidden_update [simp]:
  "in_classes db cs (r\<lparr>hidden := v\<rparr>) = in_classes db cs r"
  by (simp add: in_classes_def)

lemma mset_filter_disjoint:
  "mset (filter (\<lambda>x. f x = k) rows) + mset (filter (\<lambda>x. f x \<in> K) rows) =
     mset (filter (\<lambda>x. f x \<in> insert k K) rows)" if "k \<notin> K"
  using that by (induction rows) auto

lemma mset_concat_groups:
  "distinct ks \<Longrightarrow>
   mset (concat (map (\<lambda>k. filter (\<lambda>x. f x = k) rows) ks)) =
     mset (filter (\<lambda>x. f x \<in> set ks) rows)"
proof (induction ks)
  case Nil
  then show ?case by simp
next
  case (Cons k ks)
  then show ?case
    using mset_filter_disjoint[of k "set ks" f rows] by simp
qed

lemma tupleByClass_mset:
  assumes "\<forall>x \<in> set (joined db h). className (fst x) \<in> set cs \<longrightarrow>
             CHR '','' \<notin> set (col_text g (snd (snd x)))"
  shows "mset (tupleByClass db cs h g) =
     mset (map (\<lambda>x. col_text g (snd (snd x)))
       (filter (\<lambda>x. className (fst x) \<in> set cs) (joined db h)))"
proof -
  define rows where "rows = joined db h"
  define lab where "lab = (\<lambda>x :: class_row \<times> junction_row \<times> media_row. className (fst x))"
  define val where "val = (\<lambda>x :: class_row \<times> junction_row \<times> media_row. col_text g (snd (snd x)))"
  define ks where "ks = filter (\<lambda>k. k \<in> set cs) (remdups (map lab rows))"
  have gv: "group_values db h g k = map val (filter (\<lambda>x. lab x = k) rows)" for k
    by (simp add: group_values_def rows_def lab_def val_def case_prod_unfold)
  have labs: "map (\<lambda>(c, j, i). className c) (joined db h) = map lab rows"
    by (simp add: rows_def lab_def case_prod_unfold)
  have free: "concat (map (split_str CHR '','') (group_values db h g k)) = group_values db h g k"
    if "k \<in> set ks" for k
  proof (rule concat_split_free)
    from that have "k \<in> set cs" by (simp add: ks_def)
    then show "\<forall>v \<in> set (group_values db h g k). CHR '','' \<notin> set v"
      using assms by (auto simp: gv rows_def lab_def val_def)
  qed
  have "tupleByClass db cs h g =
      concat (map (\<lambda>k. concat (map (split_str CHR '','') (group_values db h g k))) ks)"
    by (simp add: tupleByClass_eq labs ks_def)
  also have "\<dots> = concat (map (\<lambda>k. group_values db h g k) ks)"
    by (rule arg_cong[where f = concat], rule map_cong[OF refl]) (rule free)
  also have "\<dots> = map val (concat (map (\<lambda>k. filter (\<lambda>x. lab x = k) rows) ks))"
    by (simp add: gv map_concat comp_def)
  finally have "mset (tupleByClass db cs h g) =
      image_mset val (mset (concat (map (\<lambda>k. filter (\<lambda>x. lab x = k) rows) ks)))"
    by simp
  also have "\<dots> = image_mset val (mset (filter (\<lambda>x. lab x \<in> set ks) rows))"
    by (subst mset_concat_groups) (simp_all add: ks_def)
  also have "filter (\<lambda>x. lab x \<in> set ks) rows = filter (\<lambda>x. lab x \<in> set cs) rows"
    by (rule filter_cong) (auto simp: ks_def)
  finally show ?thesis
    by (simp add: rows_def lab_def val_def)
qed

subsection \<open>Insert or update\<close>

lemma find_or_create_class_result:
  "\<exists>db1 cid. find_or_create_class db name = Inr (db1, cid) \<and>
     MEDIA db1 = MEDIA db \<and> JUNCTION db1 = JUNCTION db \<and>
     deleteFile_calls db1 = deleteFile_calls db \<and>
     set (CLASS db) \<subseteq> set (CLASS db1) \<and>
     (\<exists>c \<in> set (CLASS db1). classID c = cid \<and> className c = name)"
proof (cases "\<exists>c \<in> set (CLASS db). className c = name")
  case True
  then obtain c where c: "c \<in> set (CLASS db)" "className c = name" by blast
  then have "filter (\<lambda>c. className c = name) (CLASS db) \<noteq> []"
    by (auto simp: filter_empty_conv)
  then obtain d ds where f: "filter (\<lambda>c. className c = name) (CLASS db) = d # ds"
    by (cases "filter (\<lambda>c. className c = name) (CLASS db)") auto
  then have "d \<in> set (filter (\<lambda>c. className c = name) (CLASS db))" by simp
  then have d: "d \<in> set (CLASS db)" "className d = name" by auto
  have "find_or_create_class db name = Inr (db, classID d)"
    using True f by (simp add: find_or_create_class_def insert_class_def select_classID_def)
  with d show ?thesis by auto
next
  case False
  then show ?thesis
    by (auto simp: find_or_create_class_def insert_class_def Let_def)
qed

lemma insert_or_ignore_junction_props:
  "MEDIA (insert_or_ignore_junction db iid cid) = MEDIA db \<and>
   CLASS (insert_or_ignore_junction db iid cid) = CLASS db \<and>
   deleteFile_calls (insert_or_ignore_junction db iid cid) = deleteFile_calls db \<and>
   set (JUNCTION (insert_or_ignore_junction db iid cid)) = insert (iid, cid) (set (JUNCTION db)) \<and>
   (distinct (JUNCTION db) \<longrightarrow> distinct (JUNCTION (insert_or_ignore_junction db iid cid)))"
  by (auto simp: insert_or_ignore_junction_def)

lemma class_loop_result:
  "\<exists>db'. class_loop db iid names = Inr db' \<and>
     MEDIA db' = MEDIA db \<and> deleteFile_calls db' = deleteFile_calls db \<and>
     set (CLASS db) \<subseteq> set (CLASS db') \<and>
     set (JUNCTION db) \<subseteq> set (JUNCTION db') \<and>
     (distinct (JUNCTION db) \<longrightarrow> distinct (JUNCTION db')) \<and>
     (\<forall>name \<in> set names. \<exists>c \<in> set (CLASS db').
        className c = name \<and> (iid, classID c) \<in> set (JUNCTION db'))"
proof (induction names arbitrary: db)
  case Nil
  then show ?case by simp
next
  case (Cons name rest)
  obtain db1 cid where f: "find_or_create_class db name = Inr (db1, cid)"
    and keep: "MEDIA db1 = MEDIA db" "JUNCTION db1 = JUNCTION db"
      "deleteFile_calls db1 = deleteFile_calls db" "set (CLASS db) \<subseteq> set (CLASS db1)"
    and c: "\<exists>c \<in> set (CLASS db1). classID c = cid \<and> className c = name"
    using find_or_create_class_result[of db name] by blast
  let ?db2 = "insert_or_ignore_junction db1 iid cid"
  note j = insert_or_ignore_junction_props[of db1 iid cid]
  obtain db' where l: "class_loop ?db2 iid rest = Inr db'"
    and keep': "MEDIA db' = MEDIA ?db2" "deleteFile_calls db' = deleteFile_calls ?db2"
      "set (CLASS ?db2) \<subseteq> set (CLASS db')" "set (JUNCTION ?db2) \<subseteq> set (JUNCTION db')"
      "distinct (JUNCTION ?db2) \<longrightarrow> distinct (JUNCTION db')"
    and all: "\<forall>name \<in> set rest. \<exists>c \<in> set (CLASS db').
        className c = name \<and> (iid, classID c) \<in> set (JUNCTION db')"
    using Cons.IH[of ?db2] by blast
  have run: "class_loop db iid (name # rest) = Inr db'"
    using f l by simp
  from c obtain cr where cr: "cr \<in> set (CLASS db1)" "classID cr = cid" "className cr = name"
    by blast
  have "cr \<in> set (CLASS db')" using cr keep'(3) j by auto
  moreover have "(iid, classID cr) \<in> set (JUNCTION db')" using cr keep'(4) j by auto
  ultimately have first: "\<exists>c \<in> set (CLASS db'). className c = name \<and> (iid, classID c) \<in> set (JUNCTION db')"
    using cr by blast
  have "MEDIA db' = MEDIA db" "deleteFile_calls db' = deleteFile_calls db"
    using keep keep' j by simp_all
  moreover have "set (CLASS db) \<subseteq> set (CLASS db')" using keep keep' j by auto
  moreover have "set (JUNCTION db) \<subseteq> set (JUNCTION db')" using keep keep' j by auto
  moreover have "distinct (JUNCTION db) \<longrightarrow> distinct (JUNCTION db')" using keep keep' j by simp
  ultimately show ?case using run first all by simp
qed

lemma insertIntoDB_existing:
  assumes "hashExist db h"
  shows "insertIntoDB db file classes h = Inr (update_path db file h)"
  using assms by (simp add: insertIntoDB_def insert_media_def hashExist_def)

lemma insertIntoDB_new:
  assumes "\<not> hashExist db h"
  shows "\<exists>db'. insertIntoDB db file classes h = Inr db' \<and>
     MEDIA db' = MEDIA db @
       [\<lparr>imageID = next_rowid (map imageID (MEDIA db)), hash = h, path = file, hidden = 0\<rparr>] \<and>
     deleteFile_calls db' = deleteFile_calls db \<and>
     set (CLASS db) \<subseteq> set (CLASS db') \<and>
     set (JUNCTION db) \<subseteq> set (JUNCTION db') \<and>
     (distinct (JUNCTION db) \<longrightarrow> distinct (JUNCTION db')) \<and>
     (\<forall>name \<in> set classes. \<exists>c \<in> set (CLASS db').
        className c = name \<and>
        (next_rowid (map imageID (MEDIA db)), classID c) \<in> set (JUNCTION db'))"
proof -
  let ?new = "next_rowid (map imageID (MEDIA db))"
  let ?db1 = "db\<lparr>MEDIA := MEDIA db @ [\<lparr>imageID = ?new, hash = h, path = file, hidden = 0\<rparr>]\<rparr>"
  have m: "insert_media db h file = Inr (?db1, ?new)"
    using assms by (simp add: insert_media_def hashExist_def Let_def)
  obtain db' where l: "class_loop ?db1 ?new classes = Inr db'"
    and rest: "MEDIA db' = MEDIA ?db1" "deleteFile_calls db' = deleteFile_calls ?db1"
     "set (CLASS ?db1) \<subseteq> set (CLASS db')"
     "set (JUNCTION ?db1) \<subseteq> set (JUNCTION db')"
     "distinct (JUNCTION ?db1) \<longrightarrow> distinct (JUNCTION db')"
     "\<forall>name \<in> set classes. \<exists>c \<in> set (CLASS db').
        className c = name \<and> (?new, classID c) \<in> set (JUNCTION db')"
    using class_loop_result[of ?db1 ?new classes] by blast
  have "insertIntoDB db file classes h = Inr db'"
    using m l by (simp add: insertIntoDB_def)
  with rest show ?thesis by simp
qed

lemma group_member:
  assumes "c \<in> set (CLASS db)" "className c = k" "(imageID r, classID c) \<in> set (JUNCTION db)"
    "r \<in> set (MEDIA db)" "hidden r = h"
  shows "\<exists>vals. (k, vals) \<in> set (groupByClass db h g) \<and>
           set (split_str CHR '','' (col_text g r)) \<subseteq> set vals"
proof -
  have row: "(c, (imageID r, classID c), r) \<in> set (joined db h)"
    using assms by (simp add: joined_iff)
  then have "k \<in> set (remdups (map (\<lambda>(c, j, i). className c) (joined db h)))"
    using assms(2) by force
  then have "(k, concat (map (split_str CHR '','') (group_values db h g k)))
      \<in> set (groupByClass db h g)"
    unfolding groupByClass_eq set_map by (rule imageI)
  moreover have "col_text g r \<in> set (group_values db h g k)"
    using row assms(2) unfolding group_values_def by force
  then have "set (split_str CHR '','' (col_text g r)) \<subseteq>
      set (concat (map (split_str CHR '','') (group_values db h g k)))"
    by auto
  ultimately show ?thesis by blast
qed

subsection \<open>The join after a change of visibility\<close>

lemma concat_map_if_singleton:
  "concat (map (\<lambda>x. if P x then [f x] else []) xs) = map f (filter P xs)"
  by (induction xs) auto

lemma concat_map_if:
  "concat (map (\<lambda>x. if P x then F x else []) xs) = concat (map F (filter P xs))"
  by (induction xs) auto

lemma joined_nested:
  "joined db h =
     concat (map (\<lambda>c. concat (map (\<lambda>j.
         map (\<lambda>i. (c, j, i)) (filter (\<lambda>i. fst j = imageID i \<and> hidden i = h) (MEDIA db)))
       (filter (\<lambda>j. classID c = snd j) (JUNCTION db)))) (CLASS db))"
proof -
  have inner: "concat (map (\<lambda>i. if fst j = imageID i then if hidden i = h then [(c, j, i)] else [] else [])
        M) =
      map (\<lambda>i. (c, j, i)) (filter (\<lambda>i. fst j = imageID i \<and> hidden i = h) M)"
    for c :: class_row and j :: junction_row and M :: "media_row list"
    by (induction M) auto
  show ?thesis
    unfolding joined_def inner concat_map_if ..
qed

lemma filter_concat_map_key:
  assumes "\<And>c x. x \<in> set (F c) \<Longrightarrow> key x = c"
  shows "filter (\<lambda>x. p (key x)) (concat (map F C)) = concat (map F (filter p C))"
proof (induction C)
  case Nil
  then show ?case by simp
next
  case (Cons c C)
  have "filter (\<lambda>x. p (key x)) (F c) = (if p c then F c else [])"
    using assms[of _ c] by (auto simp: filter_empty_conv intro: filter_True)
  with Cons show ?case by simp
qed

lemma requested_rows_nested:
  "filter (\<lambda>x. className (fst x) \<in> set cs) (joined db h) =
     concat (map (\<lambda>c. concat (map (\<lambda>j.
         map (\<lambda>i. (c, j, i)) (filter (\<lambda>i. fst j = imageID i \<and> hidden i = h) (MEDIA db)))
       (filter (\<lambda>j. classID c = snd j) (JUNCTION db))))
     (filter (\<lambda>c. className c \<in> set cs) (CLASS db)))"
  unfolding joined_nested
  by (rule filter_concat_map_key[where key = fst and p = "\<lambda>c. className c \<in> set cs"]) auto

lemma requested_rows_toggle:
  assumes mem: "\<forall>i \<in> set (MEDIA db). in_classes db cs i \<longrightarrow> hidden i = h \<and> f i = i\<lparr>hidden := v\<rparr>"
    and ids: "\<forall>i \<in> set (MEDIA db). imageID (f i) = imageID i"
  shows "filter (\<lambda>x. className (fst x) \<in> set cs) (joined (db\<lparr>MEDIA := map f (MEDIA db)\<rparr>) v) =
     map (\<lambda>(c, j, i). (c, j, i\<lparr>hidden := v\<rparr>))
       (filter (\<lambda>x. className (fst x) \<in> set cs) (joined db h))"
proof -
  have inner: "map (\<lambda>i. (c, j, i)) (filter (\<lambda>i. fst j = imageID i \<and> hidden i = v) (map f (MEDIA db))) =
      map (\<lambda>(c, j, i). (c, j, i\<lparr>hidden := v\<rparr>))
        (map (\<lambda>i. (c, j, i)) (filter (\<lambda>i. fst j = imageID i \<and> hidden i = h) (MEDIA db)))"
    if c: "c \<in> set (CLASS db)" "className c \<in> set cs"
      and j: "j \<in> set (JUNCTION db)" "classID c = snd j" for c j
  proof -
    have member: "in_classes db cs i" if "i \<in> set (MEDIA db)" "fst j = imageID i" for i
      unfolding in_classes_def using c j that by blast
    have "filter (\<lambda>i. fst j = imageID i \<and> hidden i = v) (map f (MEDIA db)) =
        map f (filter (\<lambda>i. fst j = imageID (f i) \<and> hidden (f i) = v) (MEDIA db))"
      by (simp add: filter_map comp_def)
    also have "filter (\<lambda>i. fst j = imageID (f i) \<and> hidden (f i) = v) (MEDIA db) =
        filter (\<lambda>i. fst j = imageID i \<and> hidden i = h) (MEDIA db)"
    proof (rule filter_cong[OF refl])
      fix i assume i: "i \<in> set (MEDIA db)"
      show "(fst j = imageID (f i) \<and> hidden (f i) = v) = (fst j = imageID i \<and> hidden i = h)"
      proof (cases "fst j = imageID i")
        case True
        with member[OF i] mem i have "hidden i = h" "f i = i\<lparr>hidden := v\<rparr>" by blast+
        with True show ?thesis by simp
      next
        case False
        with ids i show ?thesis by simp
      qed
    qed
    also have "map f (filter (\<lambda>i. fst j = imageID i \<and> hidden i = h) (MEDIA db)) =
        map (\<lambda>i. i\<lparr>hidden := v\<rparr>) (filter (\<lambda>i. fst j = imageID i \<and> hidden i = h) (MEDIA db))"
    proof (rule map_cong[OF refl])
      fix i assume "i \<in> set (filter (\<lambda>i. fst j = imageID i \<and> hidden i = h) (MEDIA db))"
      then have "i \<in> set (MEDIA db)" "fst j = imageID i" by auto
      with member mem show "f i = i\<lparr>hidden := v\<rparr>" by blast
    qed
    finally show ?thesis by (simp add: comp_def)
  qed
  define g where "g = (\<lambda>(c :: class_row, j :: junction_row, i :: media_row). (c, j, i\<lparr>hidden := v\<rparr>))"
  define A where "A = (\<lambda>c :: class_row. concat (map (\<lambda>j.
         map (\<lambda>i. (c, j, i)) (filter (\<lambda>i. fst j = imageID i \<and> hidden i = v) (map f (MEDIA db))))
       (filter (\<lambda>j. classID c = snd j) (JUNCTION db))))"
  define B where "B = (\<lambda>c :: class_row. concat (map (\<lambda>j.
         map (\<lambda>i. (c, j, i)) (filter (\<lambda>i. fst j = imageID i \<and> hidden i = h) (MEDIA db)))
       (filter (\<lambda>j. classID c = snd j) (JUNCTION db))))"
  have per_class: "A c = map g (B c)" if "c \<in> set (filter (\<lambda>c. className c \<in> set cs) (CLASS db))" for c
  proof -
    from that have c: "c \<in> set (CLASS db)" "className c \<in> set cs" by auto
    have "A c = concat (map (\<lambda>j. map g
         (map (\<lambda>i. (c, j, i)) (filter (\<lambda>i. fst j = imageID i \<and> hidden i = h) (MEDIA db))))
       (filter (\<lambda>j. classID c = snd j) (JUNCTION db)))"
      unfolding A_def g_def
      by (rule arg_cong[where f = concat], rule map_cong[OF refl]) (simp add: inner[OF c])
    also have "\<dots> = map g (B c)"
      unfolding B_def by (simp add: map_concat comp_def)
    finally show ?thesis .
  qed
  have "concat (map A (filter (\<lambda>c. className c \<in> set cs) (CLASS db))) =
      concat (map (\<lambda>c. map g (B c)) (filter (\<lambda>c. className c \<in> set cs) (CLASS db)))"
    by (rule arg_cong[where f = concat], rule map_cong[OF refl]) (rule per_class)
  also have "\<dots> = map g (concat (map B (filter (\<lambda>c. className c \<in> set cs) (CLASS db))))"
    by (simp add: map_concat comp_def)
  finally show ?thesis
    unfolding requested_rows_nested A_def B_def g_def by simp
qed

lemma tupleByClass_requested:
  "tupleByClass db cs h g =
     concat (map (\<lambda>k. concat (map (split_str CHR '','')
         (map snd (filter (\<lambda>p. fst p = k)
            (map (\<lambda>x. (className (fst x), col_text g (snd (snd x))))
               (filter (\<lambda>x. className (fst x) \<in> set cs) (joined db h)))))))
       (remdups (map fst
          (map (\<lambda>x. (className (fst x), col_text g (snd (snd x))))
             (filter (\<lambda>x. className (fst x) \<in> set cs) (joined db h))))))"
proof -
  define J where "J = joined db h"
  define ks where "ks = filter (\<lambda>k. k \<in> set cs) (remdups (map (\<lambda>x. className (fst x)) J))"
  have ks: "ks = remdups (map fst (map (\<lambda>x. (className (fst x), col_text g (snd (snd x))))
             (filter (\<lambda>x. className (fst x) \<in> set cs) J)))"
    by (simp add: ks_def remdups_filter[symmetric] filter_map comp_def)
  have gv: "group_values db h g k =
      map snd (filter (\<lambda>p. fst p = k)
            (map (\<lambda>x. (className (fst x), col_text g (snd (snd x))))
               (filter (\<lambda>x. className (fst x) \<in> set cs) J)))" if "k \<in> set ks" for k
  proof -
    from that have k: "k \<in> set cs" by (simp add: ks_def)
    have "filter (\<lambda>x. className (fst x) = k) (filter (\<lambda>x. className (fst x) \<in> set cs) J) =
        filter (\<lambda>x. className (fst x) = k) J"
      unfolding filter_filter by (rule filter_cong) (use k in auto)
    then show ?thesis
      by (simp add: group_values_def J_def filter_map comp_def case_prod_unfold)
  qed
  have "tupleByClass db cs h g =
      concat (map (\<lambda>k. concat (map (split_str CHR '','') (group_values db h g k))) ks)"
    by (simp add: tupleByClass_eq ks_def J_def case_prod_unfold)
  also have "\<dots> = concat (map (\<lambda>k. concat (map (split_str CHR '','')
         (map snd (filter (\<lambda>p. fst p = k)
            (map (\<lambda>x. (className (fst x), col_text g (snd (snd x))))
               (filter (\<lambda>x. className (fst x) \<in> set cs) J)))))) ks)"
    by (rule arg_cong[where f = concat], rule map_cong[OF refl]) (simp only: gv)
  finally show ?thesis
    unfolding ks J_def .
qed

lemma tupleByClass_toggled:
  assumes mem: "\<forall>i \<in> set (MEDIA db). in_classes db cs i \<longrightarrow> hidden i = h \<and> f i = i\<lparr>hidden := v\<rparr>"
    and ids: "\<forall>i \<in> set (MEDIA db). imageID (f i) = imageID i"
  shows "tupleByClass (db\<lparr>MEDIA := map f (MEDIA db)\<rparr>) cs v ColPath = tupleByClass db cs h ColPath"
  unfolding tupleByClass_requested requested_rows_toggle[OF mem ids]
  by (simp add: comp_def case_prod_unfold)

lemma tupleByClass_Nil:
  assumes "\<forall>r \<in> set (MEDIA db). in_classes db cs r \<longrightarrow> hidden r \<noteq> h"
  shows "tupleByClass db cs h ColPath = []"
proof -
  have "set (tupleByClass db cs h ColPath) = {}"
    unfolding set_tupleByClass_path using assms by auto
  then show ?thesis by simp
qed

section \<open>The claims\<close>

subsection \<open>Visibility toggle and deletion by path\<close>

text \<open>
  Claim C10. With an empty tuple of paths, \<open>toggleVisibility\<close> and \<open>deleteFromDB\<close> raise
  nothing and leave every row of MEDIA as it is (the empty \<open>IN ()\<close> list matches no row),
  and \<open>deleteFromDB\<close> still calls \<open>deleteFile\<close>, passing it the empty tuple.
\<close>

theorem empty_paths_no_change:
  "toggleVisibility db [] h = Inr db \<and>
   (\<exists>db'. deleteFromDB db [] = Inr db' \<and>
      MEDIA db' = MEDIA db \<and>
      CLASS db' = CLASS db \<and>
      JUNCTION db' = JUNCTION db \<and>
      deleteFile_calls db' = deleteFile_calls db @ [[]])"
  by (simp add: toggleVisibility_def deleteFromDB_def SQLITE_MAX_VARIABLE_NUMBER_def)




subsection \<open>Reconciliation\<close>




subsection \<open>Resolution by class\<close>

text \<open>
  Claim C8. For a class label without member items at the requested visibility, be it a
  label of CLASS that no item carries or a label that is not in CLASS at all,
  \<open>tupleByClass\<close> returns the empty tuple; the function has no failing branch.
\<close>

theorem tupleByClass_no_members:
  assumes "\<forall>r \<in> set (MEDIA db). hidden r = h \<longrightarrow> \<not> in_classes db classes r"
  shows "tupleByClass db classes h groupOf = []"
proof -
  have "{x \<in> set (joined db h). className (fst x) \<in> set classes} = {}"
  proof (rule ccontr)
    assume "{x \<in> set (joined db h). className (fst x) \<in> set classes} \<noteq> {}"
    then obtain c j i where "(c, j, i) \<in> set (joined db h)" "className c \<in> set classes"
      by auto
    then have "i \<in> set (MEDIA db)" "hidden i = h" "in_classes db classes i"
      unfolding joined_iff in_classes_def by blast+
    with assms show False by blast
  qed
  then have "set (tupleByClass db classes h groupOf) = {}"
    unfolding set_tupleByClass by (simp only: UN_empty)
  then show ?thesis by simp
qed

theorem tupleByClass_no_members_witness:
  "tupleByClass
     \<lparr>MEDIA = [\<lparr>imageID = 1, hash = ''h1'', path = ''/a.png'', hidden = 0\<rparr>],
      CLASS = [\<lparr>classID = 1, className = ''cat''\<rparr>, \<lparr>classID = 2, className = ''dog''\<rparr>],
      JUNCTION = [(1, 1)], deleteFile_calls = []\<rparr> [''dog''] 0 ColPath = [] \<and>
   tupleByClass
     \<lparr>MEDIA = [\<lparr>imageID = 1, hash = ''h1'', path = ''/a.png'', hidden = 0\<rparr>],
      CLASS = [\<lparr>classID = 1, className = ''cat''\<rparr>, \<lparr>classID = 2, className = ''dog''\<rparr>],
      JUNCTION = [(1, 1)], deleteFile_calls = []\<rparr> [''bird''] 0 ColPath = []"
  using tupleByClass_no_members [of
     "\<lparr>MEDIA = [\<lparr>imageID = 1, hash = ''h1'', path = ''/a.png'', hidden = 0\<rparr>],
      CLASS = [\<lparr>classID = 1, className = ''cat''\<rparr>, \<lparr>classID = 2, className = ''dog''\<rparr>],
      JUNCTION = [(1, 1)], deleteFile_calls = []\<rparr>" 0 "[''dog'']" ColPath]
    tupleByClass_no_members [of
     "\<lparr>MEDIA = [\<lparr>imageID = 1, hash = ''h1'', path = ''/a.png'', hidden = 0\<rparr>],
      CLASS = [\<lparr>classID = 1, className = ''cat''\<rparr>, \<lparr>classID = 2, className = ''dog''\<rparr>],
      JUNCTION = [(1, 1)], deleteFile_calls = []\<rparr>" 0 "[''bird'']" ColPath]
  by (simp add: in_classes_def)



text \<open>
  Claim C3, as the code has it. \<open>tupleByClass\<close> concatenates the tuples of the requested
  classes and removes nothing: with one item in the classes cat and dog, asking for both
  returns the item's path twice.
\<close>

theorem tupleByClass_repeats_value:
  "tupleByClass
     \<lparr>MEDIA = [\<lparr>imageID = 1, hash = ''h1'', path = ''/a.png'', hidden = 0\<rparr>],
      CLASS = [\<lparr>classID = 1, className = ''cat''\<rparr>, \<lparr>classID = 2, className = ''dog''\<rparr>],
      JUNCTION = [(1, 1), (1, 2)], deleteFile_calls = []\<rparr> [''cat'', ''dog''] 0 ColPath =
     [''/a.png'', ''/a.png'']"
  by (simp add: tupleByClass_def groupByClass_def group_values_def joined_def)

text \<open>
  Claim C3, amended. When the values of the requested classes contain no comma, the result
  lists each value once per joined row (class, association, item) of a requested class.
  It is therefore free of duplicates exactly when those rows carry pairwise different
  values; an item in several requested classes appears once per class.
\<close>

theorem tupleByClass_one_per_membership:
  assumes "\<forall>x \<in> set (joined db h). className (fst x) \<in> set classes \<longrightarrow>
             CHR '','' \<notin> set (col_text groupOf (snd (snd x)))"
  shows "mset (tupleByClass db classes h groupOf) =
           mset (map (\<lambda>x. col_text groupOf (snd (snd x)))
             (filter (\<lambda>x. className (fst x) \<in> set classes) (joined db h))) \<and>
         (distinct (tupleByClass db classes h groupOf) \<longleftrightarrow>
            distinct (map (\<lambda>x. col_text groupOf (snd (snd x)))
              (filter (\<lambda>x. className (fst x) \<in> set classes) (joined db h))))"
  using tupleByClass_mset [OF assms] by (metis mset_eq_imp_distinct_iff)

theorem tupleByClass_one_per_membership_witness:
  "distinct (tupleByClass
     \<lparr>MEDIA = [\<lparr>imageID = 1, hash = ''h1'', path = ''/a.png'', hidden = 0\<rparr>,
               \<lparr>imageID = 2, hash = ''h2'', path = ''/b.png'', hidden = 0\<rparr>],
      CLASS = [\<lparr>classID = 1, className = ''cat''\<rparr>, \<lparr>classID = 2, className = ''dog''\<rparr>],
      JUNCTION = [(1, 1), (2, 1), (2, 2)], deleteFile_calls = []\<rparr> [''cat''] 0 ColPath) \<and>
   \<not> distinct (tupleByClass
     \<lparr>MEDIA = [\<lparr>imageID = 1, hash = ''h1'', path = ''/a.png'', hidden = 0\<rparr>,
               \<lparr>imageID = 2, hash = ''h2'', path = ''/b.png'', hidden = 0\<rparr>],
      CLASS = [\<lparr>classID = 1, className = ''cat''\<rparr>, \<lparr>classID = 2, className = ''dog''\<rparr>],
      JUNCTION = [(1, 1), (2, 1), (2, 2)], deleteFile_calls = []\<rparr> [''cat'', ''dog''] 0 ColPath)"
proof -
  let ?db = "\<lparr>MEDIA = [\<lparr>imageID = 1, hash = ''h1'', path = ''/a.png'', hidden = 0\<rparr>,
               \<lparr>imageID = 2, hash = ''h2'', path = ''/b.png'', hidden = 0\<rparr>],
      CLASS = [\<lparr>classID = 1, className = ''cat''\<rparr>, \<lparr>classID = 2, className = ''dog''\<rparr>],
      JUNCTION = [(1, 1), (2, 1), (2, 2)], deleteFile_calls = []\<rparr>"
  have j: "joined ?db 0 =
    [(\<lparr>classID = 1, className = ''cat''\<rparr>, (1, 1),
        \<lparr>imageID = 1, hash = ''h1'', path = ''/a.png'', hidden = 0\<rparr>),
     (\<lparr>classID = 1, className = ''cat''\<rparr>, (2, 1),
        \<lparr>imageID = 2, hash = ''h2'', path = ''/b.png'', hidden = 0\<rparr>),
     (\<lparr>classID = 2, className = ''dog''\<rparr>, (2, 2),
        \<lparr>imageID = 2, hash = ''h2'', path = ''/b.png'', hidden = 0\<rparr>)]"
    by (simp add: joined_def)
  have "\<forall>x \<in> set (joined ?db 0). className (fst x) \<in> set [''cat''] \<longrightarrow>
             CHR '','' \<notin> set (col_text ColPath (snd (snd x)))"
    by (simp add: j)
  from tupleByClass_one_per_membership [OF this]
  have a: "distinct (tupleByClass ?db [''cat''] 0 ColPath)" by (simp add: j)
  have "\<forall>x \<in> set (joined ?db 0). className (fst x) \<in> set [''cat'', ''dog''] \<longrightarrow>
             CHR '','' \<notin> set (col_text ColPath (snd (snd x)))"
    by (simp add: j)
  from tupleByClass_one_per_membership [OF this]
  have b: "\<not> distinct (tupleByClass ?db [''cat'', ''dog''] 0 ColPath)" by (simp add: j)
  from a b show ?thesis by simp
qed

subsection \<open>Operations by class\<close>




text \<open>
  Claim C4, as the code has it. The toggle is keyed by path. An item outside the class that
  is hidden and shares its path with a visible member of the class comes out of
  \<open>hideByClass\<close> then \<open>unhideByClass\<close> visible: the visible set has grown.
\<close>

theorem hide_unhide_not_restored:
  "map (in_classes
     \<lparr>MEDIA = [\<lparr>imageID = 1, hash = ''h1'', path = ''/a.png'', hidden = 0\<rparr>,
               \<lparr>imageID = 2, hash = ''h2'', path = ''/a.png'', hidden = 1\<rparr>],
      CLASS = [\<lparr>classID = 1, className = ''cat''\<rparr>],
      JUNCTION = [(1, 1)], deleteFile_calls = []\<rparr> [''cat''])
     [\<lparr>imageID = 1, hash = ''h1'', path = ''/a.png'', hidden = 0\<rparr>,
      \<lparr>imageID = 2, hash = ''h2'', path = ''/a.png'', hidden = 1\<rparr>] = [True, False] \<and>
   hideByClass
     \<lparr>MEDIA = [\<lparr>imageID = 1, hash = ''h1'', path = ''/a.png'', hidden = 0\<rparr>,
               \<lparr>imageID = 2, hash = ''h2'', path = ''/a.png'', hidden = 1\<rparr>],
      CLASS = [\<lparr>classID = 1, className = ''cat''\<rparr>],
      JUNCTION = [(1, 1)], deleteFile_calls = []\<rparr> [''cat''] =
     Inr \<lparr>MEDIA = [\<lparr>imageID = 1, hash = ''h1'', path = ''/a.png'', hidden = 1\<rparr>,
                    \<lparr>imageID = 2, hash = ''h2'', path = ''/a.png'', hidden = 1\<rparr>],
          CLASS = [\<lparr>classID = 1, className = ''cat''\<rparr>],
          JUNCTION = [(1, 1)], deleteFile_calls = []\<rparr> \<and>
   unhideByClass
     \<lparr>MEDIA = [\<lparr>imageID = 1, hash = ''h1'', path = ''/a.png'', hidden = 1\<rparr>,
               \<lparr>imageID = 2, hash = ''h2'', path = ''/a.png'', hidden = 1\<rparr>],
      CLASS = [\<lparr>classID = 1, className = ''cat''\<rparr>],
      JUNCTION = [(1, 1)], deleteFile_calls = []\<rparr> [''cat''] =
     Inr \<lparr>MEDIA = [\<lparr>imageID = 1, hash = ''h1'', path = ''/a.png'', hidden = 0\<rparr>,
                    \<lparr>imageID = 2, hash = ''h2'', path = ''/a.png'', hidden = 0\<rparr>],
          CLASS = [\<lparr>classID = 1, className = ''cat''\<rparr>],
          JUNCTION = [(1, 1)], deleteFile_calls = []\<rparr>"
  by (simp add: in_classes_def hideByClass_def unhideByClass_def toggleVisibility_def
      tupleByClass_def groupByClass_def group_values_def joined_def
      SQLITE_MAX_VARIABLE_NUMBER_def)

text \<open>
  Claim C4, amended. When every MediaItem that carries the path of a member of the given
  classes (the members included) is visible and no member's path contains a comma,
  \<open>hideByClass\<close> followed by \<open>unhideByClass\<close> on the same classes leaves the catalog it
  started from, and with it the original set of visible items. Both calls return when the
  resolved tuple stays within the parameter limit; beyond it \<open>hideByClass\<close> raises and
  nothing is changed at all.
\<close>

theorem hide_unhide_restores:
  assumes comma: "\<forall>r \<in> set (MEDIA db). in_classes db classes r \<longrightarrow> CHR '','' \<notin> set (path r)"
    and visible: "\<forall>r \<in> set (MEDIA db).
        (\<exists>m \<in> set (MEDIA db). in_classes db classes m \<and> path m = path r) \<longrightarrow> hidden r = 0"
  shows "state_after (unhideByClass (state_after (hideByClass db classes)) classes) = db \<and>
    (length (tupleByClass db classes 0 ColPath) < SQLITE_MAX_VARIABLE_NUMBER \<longrightarrow>
       (\<exists>db1. hideByClass db classes = Inr db1 \<and> unhideByClass db1 classes = Inr db))"
proof -
  let ?T = "tupleByClass db classes 0 ColPath"
  let ?M = "path ` {m \<in> set (MEDIA db). in_classes db classes m}"
  let ?f = "\<lambda>r. if path r \<in> set ?T then r\<lparr>hidden := 1\<rparr> else r"
  let ?g = "\<lambda>r. if path r \<in> set ?T then r\<lparr>hidden := 0\<rparr> else r"
  let ?db1 = "db\<lparr>MEDIA := map ?f (MEDIA db)\<rparr>"
  have members_visible: "hidden m = 0" if "m \<in> set (MEDIA db)" "in_classes db classes m" for m
    using visible that by blast
  have "set ?T = path ` {m \<in> set (MEDIA db). hidden m = 0 \<and> in_classes db classes m}"
    using comma by (intro set_tupleByClass_path_free) blast
  also have "\<dots> = ?M"
    using members_visible by auto
  finally have T: "set ?T = ?M" .
  have restored: "map ?g (map ?f (MEDIA db)) = MEDIA db"
  proof -
    have "?g (?f r) = r" if "r \<in> set (MEDIA db)" for r
    proof (cases "path r \<in> set ?T")
      case True
      then obtain m where "m \<in> set (MEDIA db)" "in_classes db classes m" "path m = path r"
        unfolding T by (auto simp: image_iff)
      then have "hidden r = 0" using visible that by blast
      with True show ?thesis by simp
    next
      case False
      then show ?thesis by simp
    qed
    then have "map (\<lambda>r. ?g (?f r)) (MEDIA db) = map (\<lambda>r. r) (MEDIA db)"
      by (intro map_cong) simp_all
    then show ?thesis by (simp add: comp_def)
  qed
  have same: "tupleByClass ?db1 classes 1 ColPath = ?T"
  proof (rule tupleByClass_toggled)
    show "\<forall>i \<in> set (MEDIA db). in_classes db classes i \<longrightarrow>
        hidden i = 0 \<and> ?f i = i\<lparr>hidden := 1\<rparr>"
      using members_visible T by auto
    show "\<forall>i \<in> set (MEDIA db). imageID (?f i) = imageID i"
      by simp
  qed
  have small: "hideByClass db classes = Inr ?db1 \<and> unhideByClass ?db1 classes = Inr db"
    if len: "length ?T < SQLITE_MAX_VARIABLE_NUMBER"
  proof
    show hide: "hideByClass db classes = Inr ?db1"
      using len by (simp add: hideByClass_def toggleVisibility_def)
    have "unhideByClass ?db1 classes = toggleVisibility ?db1 ?T 0"
      by (simp only: unhideByClass_def same)
    also have "\<dots> = Inr (?db1\<lparr>MEDIA := map ?g (MEDIA ?db1)\<rparr>)"
      using len by (simp add: toggleVisibility_def)
    also have "?db1\<lparr>MEDIA := map ?g (MEDIA ?db1)\<rparr> = db"
      using restored by simp
    finally show "unhideByClass ?db1 classes = Inr db" .
  qed
  have big: "hideByClass db classes = Inl (OperationalError, db) \<and> unhideByClass db classes = Inr db"
    if len: "\<not> length ?T < SQLITE_MAX_VARIABLE_NUMBER"
  proof
    show "hideByClass db classes = Inl (OperationalError, db)"
      using len by (simp add: hideByClass_def toggleVisibility_def)
    have "tupleByClass db classes 1 ColPath = []"
      by (rule tupleByClass_Nil) (use members_visible in auto)
    then show "unhideByClass db classes = Inr db"
      by (simp add: unhideByClass_def toggleVisibility_def SQLITE_MAX_VARIABLE_NUMBER_def)
  qed
  have "state_after (unhideByClass (state_after (hideByClass db classes)) classes) = db"
  proof (cases "length ?T < SQLITE_MAX_VARIABLE_NUMBER")
    case True
    from small[OF True] show ?thesis by (simp add: state_after_def)
  next
    case False
    from big[OF False] show ?thesis by (simp add: state_after_def)
  qed
  with small show ?thesis by blast
qed

theorem hide_unhide_restores_witness:
  "hideByClass
     \<lparr>MEDIA = [\<lparr>imageID = 1, hash = ''h1'', path = ''/a.png'', hidden = 0\<rparr>,
               \<lparr>imageID = 2, hash = ''h2'', path = ''/b.png'', hidden = 1\<rparr>],
      CLASS = [\<lparr>classID = 1, className = ''cat''\<rparr>],
      JUNCTION = [(1, 1)], deleteFile_calls = []\<rparr> [''cat''] =
     Inr \<lparr>MEDIA = [\<lparr>imageID = 1, hash = ''h1'', path = ''/a.png'', hidden = 1\<rparr>,
                    \<lparr>imageID = 2, hash = ''h2'', path = ''/b.png'', hidden = 1\<rparr>],
          CLASS = [\<lparr>classID = 1, className = ''cat''\<rparr>],
          JUNCTION = [(1, 1)], deleteFile_calls = []\<rparr> \<and>
   unhideByClass
     \<lparr>MEDIA = [\<lparr>imageID = 1, hash = ''h1'', path = ''/a.png'', hidden = 1\<rparr>,
               \<lparr>imageID = 2, hash = ''h2'', path = ''/b.png'', hidden = 1\<rparr>],
      CLASS = [\<lparr>classID = 1, className = ''cat''\<rparr>],
      JUNCTION = [(1, 1)], deleteFile_calls = []\<rparr> [''cat''] =
     Inr \<lparr>MEDIA = [\<lparr>imageID = 1, hash = ''h1'', path = ''/a.png'', hidden = 0\<rparr>,
                    \<lparr>imageID = 2, hash = ''h2'', path = ''/b.png'', hidden = 1\<rparr>],
          CLASS = [\<lparr>classID = 1, className = ''cat''\<rparr>],
          JUNCTION = [(1, 1)], deleteFile_calls = []\<rparr>"
proof -
  let ?db = "\<lparr>MEDIA = [\<lparr>imageID = 1, hash = ''h1'', path = ''/a.png'', hidden = 0\<rparr>,
               \<lparr>imageID = 2, hash = ''h2'', path = ''/b.png'', hidden = 1\<rparr>],
      CLASS = [\<lparr>classID = 1, className = ''cat''\<rparr>],
      JUNCTION = [(1, 1)], deleteFile_calls = []\<rparr>"
  have c: "\<forall>r \<in> set (MEDIA ?db). in_classes ?db [''cat''] r \<longrightarrow> CHR '','' \<notin> set (path r)"
    by (simp add: in_classes_def)
  have v: "\<forall>r \<in> set (MEDIA ?db).
        (\<exists>m \<in> set (MEDIA ?db). in_classes ?db [''cat''] m \<and> path m = path r) \<longrightarrow> hidden r = 0"
    by (simp add: in_classes_def)
  have h: "hideByClass ?db [''cat''] =
     Inr \<lparr>MEDIA = [\<lparr>imageID = 1, hash = ''h1'', path = ''/a.png'', hidden = 1\<rparr>,
                    \<lparr>imageID = 2, hash = ''h2'', path = ''/b.png'', hidden = 1\<rparr>],
          CLASS = [\<lparr>classID = 1, className = ''cat''\<rparr>],
          JUNCTION = [(1, 1)], deleteFile_calls = []\<rparr>"
    by (simp add: hideByClass_def toggleVisibility_def tupleByClass_def groupByClass_def
      group_values_def joined_def SQLITE_MAX_VARIABLE_NUMBER_def)
  have "length (tupleByClass ?db [''cat''] 0 ColPath) < SQLITE_MAX_VARIABLE_NUMBER"
    by (simp add: tupleByClass_def groupByClass_def group_values_def joined_def
      SQLITE_MAX_VARIABLE_NUMBER_def)
  with hide_unhide_restores [OF c v]
  obtain db1 where "hideByClass ?db [''cat''] = Inr db1" "unhideByClass db1 [''cat''] = Inr ?db"
    by blast
  with h show ?thesis by simp
qed

subsection \<open>Insert or update by hash\<close>

text \<open>
  Claim C1, at the input where the code departs from it. From the empty catalog, hash h is
  inserted at \<open>/p1.png\<close> in class cat and inserted again at \<open>/a,b.png\<close>. The second
  insert rewrites the path of the item and leaves CLASS and JUNCTION alone, as the claim
  says; but \<open>groupByClass\<close> then lists \<open>/a\<close> and \<open>b.png\<close> under cat, not the path
  \<open>/a,b.png\<close> that MEDIA holds: the tuple is rebuilt by splitting the concatenated text
  at commas.
\<close>

theorem reinsert_comma_path_not_grouped:
  "insertIntoDB empty_catalog ''/p1.png'' [''cat''] ''h'' =
     Inr \<lparr>MEDIA = [\<lparr>imageID = 1, hash = ''h'', path = ''/p1.png'', hidden = 0\<rparr>],
          CLASS = [\<lparr>classID = 1, className = ''cat''\<rparr>],
          JUNCTION = [(1, 1)], deleteFile_calls = []\<rparr> \<and>
   insertIntoDB
     \<lparr>MEDIA = [\<lparr>imageID = 1, hash = ''h'', path = ''/p1.png'', hidden = 0\<rparr>],
      CLASS = [\<lparr>classID = 1, className = ''cat''\<rparr>],
      JUNCTION = [(1, 1)], deleteFile_calls = []\<rparr> ''/a,b.png'' [] ''h'' =
     Inr \<lparr>MEDIA = [\<lparr>imageID = 1, hash = ''h'', path = ''/a,b.png'', hidden = 0\<rparr>],
          CLASS = [\<lparr>classID = 1, className = ''cat''\<rparr>],
          JUNCTION = [(1, 1)], deleteFile_calls = []\<rparr> \<and>
   groupByClass
     \<lparr>MEDIA = [\<lparr>imageID = 1, hash = ''h'', path = ''/a,b.png'', hidden = 0\<rparr>],
      CLASS = [\<lparr>classID = 1, className = ''cat''\<rparr>],
      JUNCTION = [(1, 1)], deleteFile_calls = []\<rparr> 0 ColPath =
     [(''cat'', [''/a'', ''b.png''])]"
  by (simp add: insertIntoDB_def insert_media_def next_rowid_def empty_catalog_def
      find_or_create_class_def insert_class_def insert_or_ignore_junction_def update_path_def
      groupByClass_def group_values_def joined_def)

text \<open>
  Claim C7. From the empty catalog, two inserts with different hashes and the same class
  label leave one CLASS row for the label and two JUNCTION rows. Every insert succeeds and
  keeps JUNCTION free of duplicate pairs, adding rows only: an association that is already
  there is skipped by \<open>INSERT OR IGNORE\<close>.
\<close>

theorem insertIntoDB_class_and_junction_rows:
  "(h1 \<noteq> h2 \<longrightarrow>
      (\<exists>db1. insertIntoDB empty_catalog p1 [c] h1 = Inr db1 \<and>
         insertIntoDB db1 p2 [c] h2 =
           Inr \<lparr>MEDIA = [\<lparr>imageID = 1, hash = h1, path = p1, hidden = 0\<rparr>,
                          \<lparr>imageID = 2, hash = h2, path = p2, hidden = 0\<rparr>],
                CLASS = [\<lparr>classID = 1, className = c\<rparr>],
                JUNCTION = [(1, 1), (2, 1)], deleteFile_calls = []\<rparr>)) \<and>
   (distinct (JUNCTION db) \<longrightarrow>
      (\<exists>db'. insertIntoDB db file imgClass imgHash = Inr db' \<and>
         distinct (JUNCTION db') \<and> set (JUNCTION db) \<subseteq> set (JUNCTION db'))) \<and>
   ((iid, cid) \<in> set (JUNCTION db) \<longrightarrow> insert_or_ignore_junction db iid cid = db)"
proof (intro conjI impI)
  assume "h1 \<noteq> h2"
  then show "\<exists>db1. insertIntoDB empty_catalog p1 [c] h1 = Inr db1 \<and>
         insertIntoDB db1 p2 [c] h2 =
           Inr \<lparr>MEDIA = [\<lparr>imageID = 1, hash = h1, path = p1, hidden = 0\<rparr>,
                          \<lparr>imageID = 2, hash = h2, path = p2, hidden = 0\<rparr>],
                CLASS = [\<lparr>classID = 1, className = c\<rparr>],
                JUNCTION = [(1, 1), (2, 1)], deleteFile_calls = []\<rparr>"
    by (simp add: insertIntoDB_def insert_media_def next_rowid_def empty_catalog_def
      find_or_create_class_def insert_class_def insert_or_ignore_junction_def
      select_classID_def)
next
  assume d: "distinct (JUNCTION db)"
  show "\<exists>db'. insertIntoDB db file imgClass imgHash = Inr db' \<and>
         distinct (JUNCTION db') \<and> set (JUNCTION db) \<subseteq> set (JUNCTION db')"
  proof (cases "hashExist db imgHash")
    case True
    then have "insertIntoDB db file imgClass imgHash = Inr (update_path db file imgHash)"
      by (rule insertIntoDB_existing)
    with d show ?thesis by (simp add: update_path_def)
  next
    case False
    from insertIntoDB_new[OF this, of "file" imgClass] d show ?thesis by auto
  qed
next
  assume "(iid, cid) \<in> set (JUNCTION db)"
  then show "insert_or_ignore_junction db iid cid = db"
    by (simp add: insert_or_ignore_junction_def)
qed

theorem insertIntoDB_class_and_junction_rows_witness:
  "(\<exists>db1. insertIntoDB empty_catalog ''/img/1.png'' [''cat''] ''aa11'' = Inr db1 \<and>
      insertIntoDB db1 ''/img/2.png'' [''cat''] ''bb22'' =
        Inr \<lparr>MEDIA = [\<lparr>imageID = 1, hash = ''aa11'', path = ''/img/1.png'', hidden = 0\<rparr>,
                       \<lparr>imageID = 2, hash = ''bb22'', path = ''/img/2.png'', hidden = 0\<rparr>],
             CLASS = [\<lparr>classID = 1, className = ''cat''\<rparr>],
             JUNCTION = [(1, 1), (2, 1)], deleteFile_calls = []\<rparr>) \<and>
   (\<exists>db'. insertIntoDB empty_catalog ''/img/1.png'' [''cat'', ''cat''] ''aa11'' = Inr db' \<and>
      distinct (JUNCTION db')) \<and>
   insert_or_ignore_junction
     \<lparr>MEDIA = [], CLASS = [], JUNCTION = [(1, 1)], deleteFile_calls = []\<rparr> 1 1 =
     \<lparr>MEDIA = [], CLASS = [], JUNCTION = [(1, 1)], deleteFile_calls = []\<rparr>"
  using insertIntoDB_class_and_junction_rows [of "''aa11''" "''bb22''" "''/img/1.png''" "''cat''"
      "''/img/2.png''" empty_catalog "''/img/1.png''" "[''cat'', ''cat'']" "''aa11''" 1 1]
    insertIntoDB_class_and_junction_rows [of "''aa11''" "''bb22''" "''/img/1.png''" "''cat''"
      "''/img/2.png''" "\<lparr>MEDIA = [], CLASS = [], JUNCTION = [(1, 1)], deleteFile_calls = []\<rparr>"
      "''/img/1.png''" "[''cat'', ''cat'']" "''aa11''" 1 1]
  by (simp add: empty_catalog_def)

end
